theory Spec2Isabelle
  imports Main "HOL-Library.AList"
begin

section \<open>The record model (lib/data-context.tsx)\<close>

text \<open>
  The three record shapes follow the TypeScript interfaces \<^verbatim>\<open>Client\<close>, \<^verbatim>\<open>Worker\<close>
  and \<^verbatim>\<open>Task\<close>. A \<^verbatim>\<open>number\<close> field is an \<^typ>\<open>int\<close>: the ingestion layer fills
  every scalar through \<^verbatim>\<open>parseInt(..) || 1\<close>, and the engine's arithmetic is exact on
  integers of safe magnitude. The engine itself tests at run time whether an identifier
  or a name is falsy and whether \<^verbatim>\<open>AvailableSlots\<close> is an array, so a record reaching it
  may lack these properties: an identifier, a name and every list-valued field is an
  \<^typ>\<open>'a option\<close>, \<^term>\<open>None\<close> standing for JavaScript's \<^verbatim>\<open>undefined\<close>. The optional
  \<^verbatim>\<open>_errors\<close> property of the interfaces is left out: the engine never reads or writes it.
\<close>

record Client =
  ClientID :: "string option"
  ClientName :: "string option"
  PriorityLevel :: int
  RequestedTaskIDs :: "string list option"
  GroupTag :: string
  AttributesJSON :: string

record Worker =
  WorkerID :: "string option"
  WorkerName :: "string option"
  Skills :: "string list option"
  AvailableSlots :: "int list option"
  MaxLoadPerPhase :: int
  WorkerGroup :: string
  QualificationLevel :: int

record Task =
  TaskID :: "string option"
  TaskName :: "string option"
  Category :: string
  Duration :: int
  RequiredSkills :: "string list option"
  PreferredPhases :: "int list option"
  MaxConcurrent :: int

datatype severity = error | warning | info

text \<open>
  \<^verbatim>\<open>ValidationError\<close>: the field \<^verbatim>\<open>id\<close> is named \<open>id_field\<close> here. \<^verbatim>\<open>entityId\<close> is
  copied from a record's identifier in most checks, so it is as optional as the
  identifier is.
\<close>

record ValidationError =
  id_field :: string
  type :: string
  entity :: string
  entityId :: "string option"
  field :: string
  message :: string
  severity :: severity

text \<open>
  The engine object: \<^verbatim>\<open>setData\<close> stores the three collections, the checks read them.
\<close>

record ValidationEngine =
  clients :: "Client list"
  workers :: "Worker list"
  tasks :: "Task list"

definition new_ValidationEngine :: ValidationEngine where
  "new_ValidationEngine = \<lparr>clients = [], workers = [], tasks = []\<rparr>"

definition setData ::
  "Client list \<Rightarrow> Worker list \<Rightarrow> Task list \<Rightarrow> ValidationEngine \<Rightarrow> ValidationEngine" where
  "setData cs ws ts this = this\<lparr>clients := cs, workers := ws, tasks := ts\<rparr>"

datatype exception = TypeError

section \<open>JavaScript primitives the engine uses\<close>

text \<open>\<^verbatim>\<open>!x\<close> on a string-or-undefined value: true for \<^verbatim>\<open>undefined\<close> and for the empty string.\<close>

definition falsy :: "string option \<Rightarrow> bool" where
  "falsy x = (case x of None \<Rightarrow> True | Some s \<Rightarrow> s = [])"

text \<open>\<^verbatim>\<open>x || d\<close> for a string-or-undefined \<open>x\<close> and a string literal \<open>d\<close>.\<close>

definition or_else :: "string option \<Rightarrow> string \<Rightarrow> string option" where
  "or_else x d = (if falsy x then Some d else x)"

text \<open>A string-or-undefined value inside a template literal.\<close>

definition tmpl :: "string option \<Rightarrow> string" where
  "tmpl x = (case x of None \<Rightarrow> ''undefined'' | Some s \<Rightarrow> s)"

text \<open>An integer inside a template literal: its decimal digits, with a leading minus sign.\<close>

definition digit_char :: "nat \<Rightarrow> char" where
  "digit_char d = ''0123456789'' ! d"

fun show_nat :: "nat \<Rightarrow> string" where
  "show_nat n = (if n < 10 then [digit_char n] else show_nat (n div 10) @ [digit_char (n mod 10)])"

declare show_nat.simps [simp del]

definition show_int :: "int \<Rightarrow> string" where
  "show_int i = (if i < 0 then ''-'' @ show_nat (nat (- i)) else show_nat (nat i))"

text \<open>\<^verbatim>\<open>Number.isInteger\<close>: every value of the model's number type is an integer.\<close>

definition Number_isInteger :: "int \<Rightarrow> bool" where
  "Number_isInteger n = True"

text \<open>
  \<^verbatim>\<open>Record<number, number>\<close>: an object whose property keys are the decimal strings of
  integers, which are in bijection with the integers themselves (\<^verbatim>\<open>parseInt\<close> inverts the
  conversion), so the model keys the object by \<^typ>\<open>int\<close>. The association list keeps the
  order in which the properties were created; assigning to an existing property keeps its
  place (\<^const>\<open>AList.update\<close>).
\<close>

type_synonym number_record = "(int \<times> int) list"

definition Record_get :: "number_record \<Rightarrow> int \<Rightarrow> int option" where
  "Record_get r k = map_of r k"

definition Record_set :: "number_record \<Rightarrow> int \<Rightarrow> int \<Rightarrow> number_record" where
  "Record_set r k v = AList.update k v r"

text \<open>\<^verbatim>\<open>r[k] || 0\<close>: zero for a missing property and for a property holding zero.\<close>

definition or_zero :: "int option \<Rightarrow> int" where
  "or_zero x = (case x of None \<Rightarrow> 0 | Some v \<Rightarrow> (if v = 0 then 0 else v))"

text \<open>
  \<^verbatim>\<open>Object.keys\<close>: the keys that are array indices (canonical integers from \<open>0\<close> to
  \<open>2\<^sup>3\<^sup>2 - 2\<close>) come first, in ascending order; the other keys follow in creation order.
\<close>

definition is_array_index :: "int \<Rightarrow> bool" where
  "is_array_index k \<longleftrightarrow> 0 \<le> k \<and> k < 2 ^ 32 - 1"

definition Object_keys :: "number_record \<Rightarrow> int list" where
  "Object_keys r =
     sort (filter is_array_index (map fst r)) @ filter (\<lambda>k. \<not> is_array_index k) (map fst r)"

text \<open>
  \<^verbatim>\<open>forEach\<close>, \<^verbatim>\<open>every\<close> and \<^verbatim>\<open>filter\<close> with a callback that may throw: the exception
  leaves the loop at once. (A callback that cannot throw is folded with \<^const>\<open>fold\<close>.)
\<close>

fun forEach_ex :: "('a \<Rightarrow> 's \<Rightarrow> exception + 's) \<Rightarrow> 'a list \<Rightarrow> 's \<Rightarrow> exception + 's" where
  "forEach_ex f [] s = Inr s"
| "forEach_ex f (x # xs) s = (case f x s of Inl e \<Rightarrow> Inl e | Inr s' \<Rightarrow> forEach_ex f xs s')"

fun every_ex :: "('a \<Rightarrow> exception + bool) \<Rightarrow> 'a list \<Rightarrow> exception + bool" where
  "every_ex p [] = Inr True"
| "every_ex p (x # xs) =
     (case p x of Inl e \<Rightarrow> Inl e | Inr b \<Rightarrow> (if b then every_ex p xs else Inr False))"

fun filter_ex :: "('a \<Rightarrow> exception + bool) \<Rightarrow> 'a list \<Rightarrow> exception + 'a list" where
  "filter_ex p [] = Inr []"
| "filter_ex p (x # xs) =
     (case p x of
        Inl e \<Rightarrow> Inl e
      | Inr b \<Rightarrow> (case filter_ex p xs of
                   Inl e \<Rightarrow> Inl e
                 | Inr ys \<Rightarrow> Inr (if b then x # ys else ys)))"

section \<open>The validation engine (lib/validation-engine.ts)\<close>

subsection \<open>validateMissingRequiredColumns\<close>

text \<open>
  The only check that calls \<^verbatim>\<open>Math.random()\<close>. The generator is outside the engine: the
  model takes the sequence of its draws, already rendered as text, and threads the number
  of draws made so far.
\<close>

definition missing_client ::
  "(nat \<Rightarrow> string) \<Rightarrow> Client \<Rightarrow> ValidationError list \<times> nat \<Rightarrow> ValidationError list \<times> nat" where
  "missing_client random client s =
     (let s1 = (if falsy (ClientID client)
                then (fst s @ [\<lparr>id_field = ''missing-client-id-'' @ random (snd s),
                                type = ''missing_required_field'', entity = ''clients'',
                                entityId = or_else (ClientID client) ''unknown'',
                                field = ''ClientID'', message = ''ClientID is required'',
                                severity = error\<rparr>], Suc (snd s))
                else s)
      in (if falsy (ClientName client)
          then (fst s1 @ [\<lparr>id_field = ''missing-client-name-'' @ random (snd s1),
                           type = ''missing_required_field'', entity = ''clients'',
                           entityId = ClientID client,
                           field = ''ClientName'', message = ''ClientName is required'',
                           severity = error\<rparr>], Suc (snd s1))
          else s1))"

definition missing_worker ::
  "(nat \<Rightarrow> string) \<Rightarrow> Worker \<Rightarrow> ValidationError list \<times> nat \<Rightarrow> ValidationError list \<times> nat" where
  "missing_worker random worker s =
     (let s1 = (if falsy (WorkerID worker)
                then (fst s @ [\<lparr>id_field = ''missing-worker-id-'' @ random (snd s),
                                type = ''missing_required_field'', entity = ''workers'',
                                entityId = or_else (WorkerID worker) ''unknown'',
                                field = ''WorkerID'', message = ''WorkerID is required'',
                                severity = error\<rparr>], Suc (snd s))
                else s)
      in (if falsy (WorkerName worker)
          then (fst s1 @ [\<lparr>id_field = ''missing-worker-name-'' @ random (snd s1),
                           type = ''missing_required_field'', entity = ''workers'',
                           entityId = WorkerID worker,
                           field = ''WorkerName'', message = ''WorkerName is required'',
                           severity = error\<rparr>], Suc (snd s1))
          else s1))"

definition missing_task ::
  "(nat \<Rightarrow> string) \<Rightarrow> Task \<Rightarrow> ValidationError list \<times> nat \<Rightarrow> ValidationError list \<times> nat" where
  "missing_task random task s =
     (let s1 = (if falsy (TaskID task)
                then (fst s @ [\<lparr>id_field = ''missing-task-id-'' @ random (snd s),
                                type = ''missing_required_field'', entity = ''tasks'',
                                entityId = or_else (TaskID task) ''unknown'',
                                field = ''TaskID'', message = ''TaskID is required'',
                                severity = error\<rparr>], Suc (snd s))
                else s)
      in (if falsy (TaskName task)
          then (fst s1 @ [\<lparr>id_field = ''missing-task-name-'' @ random (snd s1),
                           type = ''missing_required_field'', entity = ''tasks'',
                           entityId = TaskID task,
                           field = ''TaskName'', message = ''TaskName is required'',
                           severity = error\<rparr>], Suc (snd s1))
          else s1))"

definition validateMissingRequiredColumns ::
  "(nat \<Rightarrow> string) \<Rightarrow> ValidationEngine \<Rightarrow> nat \<Rightarrow> ValidationError list \<times> nat" where
  "validateMissingRequiredColumns random this k =
     fold (missing_task random) (tasks this)
       (fold (missing_worker random) (workers this)
          (fold (missing_client random) (clients this) ([], k)))"

subsection \<open>validateDuplicateIDs\<close>

definition duplicate_client ::
  "Client \<Rightarrow> string option set \<times> ValidationError list \<Rightarrow> string option set \<times> ValidationError list" where
  "duplicate_client client s =
     (insert (ClientID client) (fst s),
      if ClientID client \<in> fst s
      then snd s @ [\<lparr>id_field = ''duplicate-client-'' @ tmpl (ClientID client),
                      type = ''duplicate_id'', entity = ''clients'',
                      entityId = ClientID client, field = ''ClientID'',
                      message = ''Duplicate ClientID: '' @ tmpl (ClientID client),
                      severity = error\<rparr>]
      else snd s)"

definition duplicate_worker ::
  "Worker \<Rightarrow> string option set \<times> ValidationError list \<Rightarrow> string option set \<times> ValidationError list" where
  "duplicate_worker worker s =
     (insert (WorkerID worker) (fst s),
      if WorkerID worker \<in> fst s
      then snd s @ [\<lparr>id_field = ''duplicate-worker-'' @ tmpl (WorkerID worker),
                      type = ''duplicate_id'', entity = ''workers'',
                      entityId = WorkerID worker, field = ''WorkerID'',
                      message = ''Duplicate WorkerID: '' @ tmpl (WorkerID worker),
                      severity = error\<rparr>]
      else snd s)"

definition duplicate_task ::
  "Task \<Rightarrow> string option set \<times> ValidationError list \<Rightarrow> string option set \<times> ValidationError list" where
  "duplicate_task task s =
     (insert (TaskID task) (fst s),
      if TaskID task \<in> fst s
      then snd s @ [\<lparr>id_field = ''duplicate-task-'' @ tmpl (TaskID task),
                      type = ''duplicate_id'', entity = ''tasks'',
                      entityId = TaskID task, field = ''TaskID'',
                      message = ''Duplicate TaskID: '' @ tmpl (TaskID task),
                      severity = error\<rparr>]
      else snd s)"

definition validateDuplicateIDs :: "ValidationEngine \<Rightarrow> ValidationError list" where
  "validateDuplicateIDs this =
     (let errors = snd (fold duplicate_client (clients this) ({}, []));
          errors = snd (fold duplicate_worker (workers this) ({}, errors));
          errors = snd (fold duplicate_task (tasks this) ({}, errors))
      in errors)"

subsection \<open>validateMalformedLists\<close>

definition invalid_slot :: "Worker \<Rightarrow> int \<Rightarrow> ValidationError list \<Rightarrow> ValidationError list" where
  "invalid_slot worker slot errors =
     (if \<not> Number_isInteger slot \<or> slot < 1
      then errors @ [\<lparr>id_field = ''invalid-slot-'' @ tmpl (WorkerID worker) @ ''-'' @ show_int slot,
                      type = ''malformed_list'', entity = ''workers'',
                      entityId = WorkerID worker, field = ''AvailableSlots'',
                      message = ''Invalid slot value: '' @ show_int slot @ ''. Must be positive integer'',
                      severity = error\<rparr>]
      else errors)"

definition malformed_slots :: "Worker \<Rightarrow> ValidationError list \<Rightarrow> ValidationError list" where
  "malformed_slots worker errors =
     (case AvailableSlots worker of
        None \<Rightarrow> errors @ [\<lparr>id_field = ''malformed-slots-'' @ tmpl (WorkerID worker),
                           type = ''malformed_list'', entity = ''workers'',
                           entityId = WorkerID worker, field = ''AvailableSlots'',
                           message = ''AvailableSlots must be an array of numbers'',
                           severity = error\<rparr>]
      | Some slots \<Rightarrow> fold (invalid_slot worker) slots errors)"

definition validateMalformedLists :: "ValidationEngine \<Rightarrow> ValidationError list" where
  "validateMalformedLists this = fold malformed_slots (workers this) []"

subsection \<open>validateOutOfRangeValues\<close>

definition invalid_priority :: "Client \<Rightarrow> ValidationError list \<Rightarrow> ValidationError list" where
  "invalid_priority client errors =
     (if PriorityLevel client < 1 \<or> PriorityLevel client > 5
      then errors @ [\<lparr>id_field = ''invalid-priority-'' @ tmpl (ClientID client),
                      type = ''out_of_range'', entity = ''clients'',
                      entityId = ClientID client, field = ''PriorityLevel'',
                      message = ''PriorityLevel must be between 1 and 5, got ''
                                  @ show_int (PriorityLevel client),
                      severity = error\<rparr>]
      else errors)"

definition invalid_duration :: "Task \<Rightarrow> ValidationError list \<Rightarrow> ValidationError list" where
  "invalid_duration task errors =
     (if Duration task < 1
      then errors @ [\<lparr>id_field = ''invalid-duration-'' @ tmpl (TaskID task),
                      type = ''out_of_range'', entity = ''tasks'',
                      entityId = TaskID task, field = ''Duration'',
                      message = ''Duration must be at least 1, got '' @ show_int (Duration task),
                      severity = error\<rparr>]
      else errors)"

definition invalid_load :: "Worker \<Rightarrow> ValidationError list \<Rightarrow> ValidationError list" where
  "invalid_load worker errors =
     (if MaxLoadPerPhase worker < 1
      then errors @ [\<lparr>id_field = ''invalid-load-'' @ tmpl (WorkerID worker),
                      type = ''out_of_range'', entity = ''workers'',
                      entityId = WorkerID worker, field = ''MaxLoadPerPhase'',
                      message = ''MaxLoadPerPhase must be at least 1, got ''
                                  @ show_int (MaxLoadPerPhase worker),
                      severity = error\<rparr>]
      else errors)"

definition validateOutOfRangeValues :: "ValidationEngine \<Rightarrow> ValidationError list" where
  "validateOutOfRangeValues this =
     fold invalid_load (workers this)
       (fold invalid_duration (tasks this)
          (fold invalid_priority (clients this) []))"

subsection \<open>validateBrokenJSON\<close>

text \<open>
  \<^verbatim>\<open>JSON.parse\<close> belongs to the platform; the check only asks whether it throws. The
  model takes that as a parameter: \<open>JSON_parses s\<close> holds when \<^verbatim>\<open>JSON.parse(s)\<close> returns.
\<close>

definition broken_json :: "(string \<Rightarrow> bool) \<Rightarrow> Client \<Rightarrow> ValidationError list \<Rightarrow> ValidationError list" where
  "broken_json JSON_parses client errors =
     (if JSON_parses (AttributesJSON client) then errors
      else errors @ [\<lparr>id_field = ''broken-json-'' @ tmpl (ClientID client),
                      type = ''broken_json'', entity = ''clients'',
                      entityId = ClientID client, field = ''AttributesJSON'',
                      message = ''Invalid JSON format in AttributesJSON'',
                      severity = error\<rparr>])"

definition validateBrokenJSON :: "(string \<Rightarrow> bool) \<Rightarrow> ValidationEngine \<Rightarrow> ValidationError list" where
  "validateBrokenJSON JSON_parses this = fold (broken_json JSON_parses) (clients this) []"

subsection \<open>validateUnknownReferences\<close>

definition unknown_task ::
  "string option set \<Rightarrow> Client \<Rightarrow> string \<Rightarrow> ValidationError list \<Rightarrow> ValidationError list" where
  "unknown_task taskIds client taskId errors =
     (if Some taskId \<notin> taskIds
      then errors @ [\<lparr>id_field = ''unknown-task-'' @ tmpl (ClientID client) @ ''-'' @ taskId,
                      type = ''unknown_reference'', entity = ''clients'',
                      entityId = ClientID client, field = ''RequestedTaskIDs'',
                      message = ''Referenced TaskID '' @ [CHR 0x27] @ taskId @ [CHR 0x27]
                                  @ '' does not exist'',
                      severity = error\<rparr>]
      else errors)"

definition unknown_refs ::
  "string option set \<Rightarrow> Client \<Rightarrow> ValidationError list \<Rightarrow> exception + ValidationError list" where
  "unknown_refs taskIds client errors =
     (case RequestedTaskIDs client of
        None \<Rightarrow> Inl TypeError
      | Some ids \<Rightarrow> Inr (fold (unknown_task taskIds client) ids errors))"

definition validateUnknownReferences :: "ValidationEngine \<Rightarrow> exception + ValidationError list" where
  "validateUnknownReferences this =
     (let taskIds = set (map TaskID (tasks this))
      in forEach_ex (unknown_refs taskIds) (clients this) [])"

subsection \<open>validateCircularCoRunGroups, validateConflictingRules\<close>

definition validateCircularCoRunGroups :: "ValidationEngine \<Rightarrow> ValidationError list" where
  "validateCircularCoRunGroups this = []"

definition validateConflictingRules :: "ValidationEngine \<Rightarrow> ValidationError list" where
  "validateConflictingRules this = []"

subsection \<open>validateOverloadedWorkers\<close>

definition overloaded_worker :: "Worker \<Rightarrow> ValidationError list \<Rightarrow> exception + ValidationError list" where
  "overloaded_worker worker errors =
     (case AvailableSlots worker of
        None \<Rightarrow> Inl TypeError
      | Some slots \<Rightarrow>
          Inr (if int (length slots) < MaxLoadPerPhase worker
               then errors @ [\<lparr>id_field = ''overloaded-worker-'' @ tmpl (WorkerID worker),
                               type = ''overloaded_worker'', entity = ''workers'',
                               entityId = WorkerID worker, field = ''MaxLoadPerPhase'',
                               message = ''MaxLoadPerPhase ('' @ show_int (MaxLoadPerPhase worker)
                                           @ '') exceeds available slots (''
                                           @ show_int (int (length slots)) @ '')'',
                               severity = warning\<rparr>]
               else errors))"

definition validateOverloadedWorkers :: "ValidationEngine \<Rightarrow> exception + ValidationError list" where
  "validateOverloadedWorkers this = forEach_ex overloaded_worker (workers this) []"

subsection \<open>validatePhaseSlotSaturation\<close>

definition add_capacity :: "Worker \<Rightarrow> number_record \<Rightarrow> exception + number_record" where
  "add_capacity worker phaseCapacity =
     (case AvailableSlots worker of
        None \<Rightarrow> Inl TypeError
      | Some slots \<Rightarrow>
          Inr (fold (\<lambda>phase phaseCapacity.
                 Record_set phaseCapacity phase
                   (or_zero (Record_get phaseCapacity phase) + MaxLoadPerPhase worker))
               slots phaseCapacity))"

definition add_demand :: "Task \<Rightarrow> number_record \<Rightarrow> exception + number_record" where
  "add_demand task phaseDemand =
     (case PreferredPhases task of
        None \<Rightarrow> Inl TypeError
      | Some phases \<Rightarrow>
          Inr (fold (\<lambda>phase phaseDemand.
                 Record_set phaseDemand phase
                   (or_zero (Record_get phaseDemand phase) + Duration task))
               phases phaseDemand))"

text \<open>
  The body of the last loop. \<open>phase\<close> is \<^verbatim>\<open>parseInt(phaseStr)\<close>, the key read back as
  a number. Were \<open>phaseDemand[phase]\<close> undefined, the comparison \<^verbatim>\<open>demand > capacity\<close>
  would be false.
\<close>

definition saturation ::
  "number_record \<Rightarrow> number_record \<Rightarrow> int \<Rightarrow> ValidationError list \<Rightarrow> ValidationError list" where
  "saturation phaseCapacity phaseDemand phase errors =
     (let capacity = or_zero (Record_get phaseCapacity phase)
      in case Record_get phaseDemand phase of
           None \<Rightarrow> errors
         | Some demand \<Rightarrow>
             (if demand > capacity
              then errors @ [\<lparr>id_field = ''phase-saturation-'' @ show_int phase,
                              type = ''phase_saturation'', entity = ''system'',
                              entityId = Some ''system'', field = ''phase_capacity'',
                              message = ''Phase '' @ show_int phase @ '' is oversaturated: demand (''
                                          @ show_int demand @ '') exceeds capacity (''
                                          @ show_int capacity @ '')'',
                              severity = warning\<rparr>]
              else errors))"

definition validatePhaseSlotSaturation :: "ValidationEngine \<Rightarrow> exception + ValidationError list" where
  "validatePhaseSlotSaturation this =
     (case forEach_ex add_capacity (workers this) [] of
        Inl e \<Rightarrow> Inl e
      | Inr phaseCapacity \<Rightarrow>
          (case forEach_ex add_demand (tasks this) [] of
             Inl e \<Rightarrow> Inl e
           | Inr phaseDemand \<Rightarrow>
               Inr (fold (saturation phaseCapacity phaseDemand) (Object_keys phaseDemand) [])))"

subsection \<open>validateSkillCoverageMatrix\<close>

definition add_skills :: "Worker \<Rightarrow> string set \<Rightarrow> exception + string set" where
  "add_skills worker workerSkills =
     (case Skills worker of
        None \<Rightarrow> Inl TypeError
      | Some skills \<Rightarrow> Inr (fold insert skills workerSkills))"

definition missing_skill ::
  "string set \<Rightarrow> Task \<Rightarrow> string \<Rightarrow> ValidationError list \<Rightarrow> ValidationError list" where
  "missing_skill workerSkills task skill errors =
     (if skill \<notin> workerSkills
      then errors @ [\<lparr>id_field = ''missing-skill-'' @ tmpl (TaskID task) @ ''-'' @ skill,
                      type = ''skill_coverage'', entity = ''tasks'',
                      entityId = TaskID task, field = ''RequiredSkills'',
                      message = ''Required skill '' @ [CHR 0x27] @ skill @ [CHR 0x27]
                                  @ '' is not available in any worker'',
                      severity = error\<rparr>]
      else errors)"

definition missing_skills ::
  "string set \<Rightarrow> Task \<Rightarrow> ValidationError list \<Rightarrow> exception + ValidationError list" where
  "missing_skills workerSkills task errors =
     (case RequiredSkills task of
        None \<Rightarrow> Inl TypeError
      | Some skills \<Rightarrow> Inr (fold (missing_skill workerSkills task) skills errors))"

definition validateSkillCoverageMatrix :: "ValidationEngine \<Rightarrow> exception + ValidationError list" where
  "validateSkillCoverageMatrix this =
     (case forEach_ex add_skills (workers this) {} of
        Inl e \<Rightarrow> Inl e
      | Inr workerSkills \<Rightarrow> forEach_ex (missing_skills workerSkills) (tasks this) [])"

subsection \<open>validateMaxConcurrencyFeasibility\<close>

text \<open>
  The callback of \<^verbatim>\<open>this.workers.filter\<close>: \<^verbatim>\<open>task.RequiredSkills.every(..)\<close> needs the
  task's list, and each call of its callback needs the worker's.
\<close>

definition has_all_skills :: "Task \<Rightarrow> Worker \<Rightarrow> exception + bool" where
  "has_all_skills task worker =
     (case RequiredSkills task of
        None \<Rightarrow> Inl TypeError
      | Some required \<Rightarrow>
          every_ex (\<lambda>skill. case Skills worker of
                              None \<Rightarrow> Inl TypeError
                            | Some skills \<Rightarrow> Inr (skill \<in> set skills))
            required)"

definition infeasible_concurrency ::
  "Worker list \<Rightarrow> Task \<Rightarrow> ValidationError list \<Rightarrow> exception + ValidationError list" where
  "infeasible_concurrency ws task errors =
     (case filter_ex (has_all_skills task) ws of
        Inl e \<Rightarrow> Inl e
      | Inr qualified \<Rightarrow>
          (let qualifiedWorkers = int (length qualified)
           in Inr (if MaxConcurrent task > qualifiedWorkers
                   then errors @ [\<lparr>id_field = ''infeasible-concurrency-'' @ tmpl (TaskID task),
                                   type = ''max_concurrency'', entity = ''tasks'',
                                   entityId = TaskID task, field = ''MaxConcurrent'',
                                   message = ''MaxConcurrent ('' @ show_int (MaxConcurrent task)
                                               @ '') exceeds qualified workers (''
                                               @ show_int qualifiedWorkers @ '')'',
                                   severity = warning\<rparr>]
                   else errors)))"

definition validateMaxConcurrencyFeasibility :: "ValidationEngine \<Rightarrow> exception + ValidationError list" where
  "validateMaxConcurrencyFeasibility this =
     forEach_ex (infeasible_concurrency (workers this)) (tasks this) []"

subsection \<open>validateAll\<close>

text \<open>\<^verbatim>\<open>errors.push(...check())\<close>: the check's result is appended, its exception propagates.\<close>

definition push_all ::
  "exception + ValidationError list \<Rightarrow> exception + ValidationError list \<Rightarrow> exception + ValidationError list" where
  "push_all check errors =
     (case errors of
        Inl e \<Rightarrow> Inl e
      | Inr es \<Rightarrow> (case check of Inl e \<Rightarrow> Inl e | Inr xs \<Rightarrow> Inr (es @ xs)))"

text \<open>
  One call of \<^verbatim>\<open>validateAll\<close> on the engine \<open>this\<close>, with \<open>k\<close> draws of \<^verbatim>\<open>Math.random()\<close>
  made before it. It returns the Defect list or the exception, the engine as the call
  leaves it, and the number of draws made when it ends. No check assigns to a field of
  \<open>this\<close> or of a record, so the engine returned is the one received.
\<close>

definition validateAll ::
  "(string \<Rightarrow> bool) \<Rightarrow> (nat \<Rightarrow> string) \<Rightarrow> ValidationEngine \<Rightarrow> nat
     \<Rightarrow> (exception + ValidationError list) \<times> ValidationEngine \<times> nat" where
  "validateAll JSON_parses random this k =
     (let m = validateMissingRequiredColumns random this k;
          errors = Inr [];
          errors = push_all (Inr (fst m)) errors;
          errors = push_all (Inr (validateDuplicateIDs this)) errors;
          errors = push_all (Inr (validateMalformedLists this)) errors;
          errors = push_all (Inr (validateOutOfRangeValues this)) errors;
          errors = push_all (Inr (validateBrokenJSON JSON_parses this)) errors;
          errors = push_all (validateUnknownReferences this) errors;
          errors = push_all (Inr (validateCircularCoRunGroups this)) errors;
          errors = push_all (validateOverloadedWorkers this) errors;
          errors = push_all (validatePhaseSlotSaturation this) errors;
          errors = push_all (validateSkillCoverageMatrix this) errors;
          errors = push_all (validateMaxConcurrencyFeasibility this) errors;
          errors = push_all (Inr (validateConflictingRules this)) errors
      in (errors, this, snd m))"

section \<open>Example inputs\<close>

definition example_client :: Client where
  "example_client = \<lparr>ClientID = Some ''C1'', ClientName = Some ''Acme'', PriorityLevel = 6,
     RequestedTaskIDs = Some [''T1''], GroupTag = ''g'', AttributesJSON = ''{}''\<rparr>"

definition example_worker :: Worker where
  "example_worker = \<lparr>WorkerID = Some ''W1'', WorkerName = Some ''Al'', Skills = Some [''py''],
     AvailableSlots = Some [1], MaxLoadPerPhase = 2, WorkerGroup = ''g'', QualificationLevel = 1\<rparr>"

definition example_task :: Task where
  "example_task = \<lparr>TaskID = Some ''T1'', TaskName = Some ''Build'', Category = ''c'', Duration = 2,
     RequiredSkills = Some [''py''], PreferredPhases = Some [1], MaxConcurrent = 1\<rparr>"

definition example_engine :: ValidationEngine where
  "example_engine = setData [example_client] [example_worker] [example_task] new_ValidationEngine"

definition example_defects :: "ValidationError list" where
  "example_defects =
     [\<lparr>id_field = ''invalid-priority-C1'', type = ''out_of_range'', entity = ''clients'',
        entityId = Some ''C1'', field = ''PriorityLevel'',
        message = ''PriorityLevel must be between 1 and 5, got 6'', severity = error\<rparr>,
      \<lparr>id_field = ''overloaded-worker-W1'', type = ''overloaded_worker'', entity = ''workers'',
        entityId = Some ''W1'', field = ''MaxLoadPerPhase'',
        message = ''MaxLoadPerPhase (2) exceeds available slots (1)'', severity = warning\<rparr>]"

section \<open>Notions used to state the properties\<close>

text \<open>What every Defect of one check has in common: its kind and its severity.\<close>

definition all_of :: "string \<Rightarrow> severity \<Rightarrow> ValidationError list \<Rightarrow> bool" where
  "all_of t s es \<longleftrightarrow> (\<forall>d \<in> set es. type d = t \<and> severity d = s)"

text \<open>The elements of a list-valued field; none when the field is absent.\<close>

definition elements :: "'a list option \<Rightarrow> 'a list" where
  "elements field_value = (case field_value of None \<Rightarrow> [] | Some xs \<Rightarrow> xs)"

text \<open>Every list-valued field of every record is present, as the interfaces declare it.\<close>

definition arrays_present :: "ValidationEngine \<Rightarrow> bool" where
  "arrays_present this \<longleftrightarrow>
     list_all (\<lambda>client. RequestedTaskIDs client \<noteq> None) (clients this) \<and>
     list_all (\<lambda>worker. Skills worker \<noteq> None \<and> AvailableSlots worker \<noteq> None) (workers this) \<and>
     list_all (\<lambda>task. RequiredSkills task \<noteq> None \<and> PreferredPhases task \<noteq> None) (tasks this)"

text \<open>Every record has a non-empty identifier and a non-empty name.\<close>

definition names_present :: "ValidationEngine \<Rightarrow> bool" where
  "names_present this \<longleftrightarrow>
     list_all (\<lambda>client. \<not> falsy (ClientID client) \<and> \<not> falsy (ClientName client)) (clients this) \<and>
     list_all (\<lambda>worker. \<not> falsy (WorkerID worker) \<and> \<not> falsy (WorkerName worker)) (workers this) \<and>
     list_all (\<lambda>task. \<not> falsy (TaskID task) \<and> \<not> falsy (TaskName task)) (tasks this)"

text \<open>
  Two calls of \<^verbatim>\<open>validateAll\<close> in a row on one engine: the second call starts from the
  engine and the generator as the first call left them. The two outcomes are returned.
\<close>

definition validateAll_twice ::
  "(string \<Rightarrow> bool) \<Rightarrow> (nat \<Rightarrow> string) \<Rightarrow> ValidationEngine \<Rightarrow> nat
     \<Rightarrow> (exception + ValidationError list) \<times> (exception + ValidationError list)" where
  "validateAll_twice JSON_parses random this k =
     (let first_call = validateAll JSON_parses random this k;
          second_call = validateAll JSON_parses random (fst (snd first_call)) (snd (snd first_call))
      in (fst first_call, fst second_call))"

text \<open>
  A Defect with the identifier of a \<open>missing_required_field\<close> Defect blanked: that
  identifier embeds a draw of \<^verbatim>\<open>Math.random()\<close>.
\<close>

definition without_random_id :: "ValidationError \<Rightarrow> ValidationError" where
  "without_random_id d =
     (if type d = ''missing_required_field'' then d\<lparr>id_field := ''''\<rparr> else d)"

definition outcome_without_random_ids ::
  "exception + ValidationError list \<Rightarrow> exception + ValidationError list" where
  "outcome_without_random_ids outcome = map_sum (\<lambda>e. e) (map without_random_id) outcome"

text \<open>A client with no name, a client with no list of requested tasks, a worker with no list of slots.\<close>

definition nameless_client :: Client where
  "nameless_client = example_client\<lparr>ClientName := Some ''''\<rparr>"

definition nameless_engine :: ValidationEngine where
  "nameless_engine = setData [nameless_client] [] [] new_ValidationEngine"

definition two_draws :: "nat \<Rightarrow> string" where
  "two_draws n = (if n = 0 then ''0.25'' else ''0.75'')"



definition worker_without_slots :: Worker where
  "worker_without_slots = example_worker\<lparr>AvailableSlots := None\<rparr>"

definition engine_without_slots :: ValidationEngine where
  "engine_without_slots = setData [] [worker_without_slots] [] new_ValidationEngine"

text \<open>
  The positions of a list that hold a value already seen at an earlier position: the
  records ``whose identifier has already been seen earlier in the same collection''.
\<close>

definition repeat_positions :: "'a list \<Rightarrow> nat list" where
  "repeat_positions ids = filter (\<lambda>i. ids ! i \<in> set (take i ids)) [0..<length ids]"

text \<open>Two clients that share the identifier \<open>C1\<close>; three clients with an empty identifier.\<close>

definition twin_client :: Client where
  "twin_client = example_client\<lparr>PriorityLevel := 3, RequestedTaskIDs := Some []\<rparr>"

definition twin_engine :: ValidationEngine where
  "twin_engine =
     setData [twin_client, twin_client\<lparr>ClientName := Some ''Bolt''\<rparr>] [] [] new_ValidationEngine"

definition anonymous_client :: Client where
  "anonymous_client = twin_client\<lparr>ClientID := Some []\<rparr>"

definition anonymous_engine :: ValidationEngine where
  "anonymous_engine =
     setData [anonymous_client, anonymous_client, anonymous_client] [] [] new_ValidationEngine"


text \<open>
  The qualified workers of a task: the workers whose skill set is a superset of the task's
  required-skill set.
\<close>

definition qualified_workers :: "ValidationEngine \<Rightarrow> Task \<Rightarrow> Worker list" where
  "qualified_workers this task =
     filter (\<lambda>worker. set (elements (RequiredSkills task)) \<subseteq> set (elements (Skills worker)))
       (workers this)"



text \<open>A task of maximum concurrency 3 and two workers, one of whom has all its skills.\<close>

definition concurrent_task :: Task where
  "concurrent_task = example_task\<lparr>RequiredSkills := Some [''py'', ''rust''], MaxConcurrent := 3\<rparr>"

definition concurrent_engine :: ValidationEngine where
  "concurrent_engine =
     setData [] [example_worker, example_worker\<lparr>WorkerID := Some ''W2'', Skills := Some [''rust'', ''go'', ''py'']\<rparr>]
       [concurrent_task, example_task] new_ValidationEngine"






text \<open>A list without its repetitions, each value at its first occurrence.\<close>

fun first_occurrences :: "'a list \<Rightarrow> 'a list" where
  "first_occurrences [] = []"
| "first_occurrences (x # xs) = x # filter (\<lambda>y. y \<noteq> x) (first_occurrences xs)"

text \<open>The order in which \<^verbatim>\<open>Object.keys\<close> lists keys created in the order \<open>ks\<close>.\<close>

definition key_order :: "int list \<Rightarrow> int list" where
  "key_order ks = sort (filter is_array_index ks) @ filter (\<lambda>k. \<not> is_array_index k) ks"




section \<open>Iterations that only append\<close>


lemma forEach_ex_push:
  assumes "\<And>x es. x \<in> set xs \<Longrightarrow> f x es = Inr (es @ g x)"
  shows "forEach_ex f xs es = Inr (es @ concat (map g xs))"
  using assms
proof (induction xs arbitrary: es)
  case Nil
  show ?case by simp
next
  case (Cons x xs)
  have step: "f x es = Inr (es @ g x)"
    by (rule Cons.prems) simp
  have "forEach_ex f xs (es @ g x) = Inr ((es @ g x) @ concat (map g xs))"
    by (rule Cons.IH) (simp add: Cons.prems)
  with step show ?case by simp
qed





section \<open>Kind and severity of the Defects of each check\<close>

lemma fold_invariant:
  assumes "\<And>x s. Q s \<Longrightarrow> Q (f x s)" and "Q s"
  shows "Q (fold f xs s)"
  using assms(2) by (induction xs arbitrary: s) (simp_all add: assms(1))

lemma forEach_ex_invariant:
  assumes "\<And>x s s'. Q s \<Longrightarrow> f x s = Inr s' \<Longrightarrow> Q s'"
    and "Q s" and "forEach_ex f xs s = Inr s'"
  shows "Q s'"
  using assms(2,3)
proof (induction xs arbitrary: s)
  case Nil
  then show ?case by simp
next
  case (Cons x xs)
  from Cons.prems(2) obtain s1 where s1: "f x s = Inr s1" and rest: "forEach_ex f xs s1 = Inr s'"
    by (auto split: sum.splits)
  from assms(1) [OF Cons.prems(1) s1] rest show ?case
    by (rule Cons.IH)
qed

lemma all_of_Nil [simp]: "all_of t s []"
  by (simp add: all_of_def)

lemma all_of_snoc [simp]: "all_of t s (es @ [d]) \<longleftrightarrow> all_of t s es \<and> type d = t \<and> severity d = s"
  by (auto simp: all_of_def)

lemma missing_all_of:
  "all_of ''missing_required_field'' error (fst (validateMissingRequiredColumns random this k))"
proof -
  let ?Q = "\<lambda>s :: ValidationError list \<times> nat. all_of ''missing_required_field'' error (fst s)"
  have c: "?Q (fold (missing_client random) (clients this) ([], k))"
    by (rule fold_invariant [where Q = ?Q]) (simp_all add: missing_client_def Let_def)
  have w: "?Q (fold (missing_worker random) (workers this) (fold (missing_client random) (clients this) ([], k)))"
    by (rule fold_invariant [where Q = ?Q, OF _ c]) (simp add: missing_worker_def Let_def)
  have "?Q (fold (missing_task random) (tasks this)
              (fold (missing_worker random) (workers this) (fold (missing_client random) (clients this) ([], k))))"
    by (rule fold_invariant [where Q = ?Q, OF _ w]) (simp add: missing_task_def Let_def)
  then show ?thesis by (simp add: validateMissingRequiredColumns_def)
qed

lemma duplicate_all_of: "all_of ''duplicate_id'' error (validateDuplicateIDs this)"
proof -
  let ?Q = "\<lambda>s :: string option set \<times> ValidationError list. all_of ''duplicate_id'' error (snd s)"
  have c: "?Q (fold duplicate_client (clients this) ({}, []))"
    by (rule fold_invariant [where Q = ?Q]) (simp_all add: duplicate_client_def)
  have w: "?Q (fold duplicate_worker (workers this) ({}, snd (fold duplicate_client (clients this) ({}, []))))"
    by (rule fold_invariant [where Q = ?Q]) (simp_all add: duplicate_worker_def c)
  have "?Q (fold duplicate_task (tasks this)
       ({}, snd (fold duplicate_worker (workers this) ({}, snd (fold duplicate_client (clients this) ({}, []))))))"
    by (rule fold_invariant [where Q = ?Q]) (simp_all add: duplicate_task_def w)
  then show ?thesis by (simp add: validateDuplicateIDs_def)
qed

lemma malformed_all_of: "all_of ''malformed_list'' error (validateMalformedLists this)"
proof -
  let ?Q = "all_of ''malformed_list'' error"
  have slot: "?Q (fold (invalid_slot w) slots es)" if "?Q es" for w slots es
    by (rule fold_invariant [where Q = ?Q, OF _ that]) (simp add: invalid_slot_def)
  have "?Q (fold malformed_slots (workers this) [])"
    by (rule fold_invariant [where Q = ?Q]) (simp_all add: malformed_slots_def slot split: option.splits)
  then show ?thesis by (simp add: validateMalformedLists_def)
qed

lemma out_of_range_all_of: "all_of ''out_of_range'' error (validateOutOfRangeValues this)"
proof -
  let ?Q = "all_of ''out_of_range'' error"
  have c: "?Q (fold invalid_priority (clients this) [])"
    by (rule fold_invariant [where Q = ?Q]) (simp_all add: invalid_priority_def)
  have t: "?Q (fold invalid_duration (tasks this) (fold invalid_priority (clients this) []))"
    by (rule fold_invariant [where Q = ?Q, OF _ c]) (simp add: invalid_duration_def)
  have "?Q (fold invalid_load (workers this)
              (fold invalid_duration (tasks this) (fold invalid_priority (clients this) [])))"
    by (rule fold_invariant [where Q = ?Q, OF _ t]) (simp add: invalid_load_def)
  then show ?thesis by (simp add: validateOutOfRangeValues_def)
qed

lemma broken_json_all_of: "all_of ''broken_json'' error (validateBrokenJSON JSON_parses this)"
  unfolding validateBrokenJSON_def
  by (rule fold_invariant [where Q = "all_of ''broken_json'' error"]) (simp_all add: broken_json_def)

lemma unknown_reference_all_of:
  assumes "validateUnknownReferences this = Inr es"
  shows "all_of ''unknown_reference'' error es"
proof -
  let ?Q = "all_of ''unknown_reference'' error"
  have inner: "?Q (fold (unknown_task S c) ids es)" if "?Q es" for S c ids es
    by (rule fold_invariant [where Q = ?Q, OF _ that]) (simp add: unknown_task_def)
  show ?thesis
    by (rule forEach_ex_invariant [where Q = ?Q and s = "[]", OF _ _ assms [unfolded validateUnknownReferences_def Let_def]])
       (auto simp: unknown_refs_def inner split: option.splits)
qed

lemma overloaded_all_of:
  assumes "validateOverloadedWorkers this = Inr es"
  shows "all_of ''overloaded_worker'' warning es"
  by (rule forEach_ex_invariant [where Q = "all_of ''overloaded_worker'' warning" and s = "[]",
        OF _ _ assms [unfolded validateOverloadedWorkers_def]])
     (auto simp: overloaded_worker_def split: option.splits if_splits)

lemma saturation_all_of:
  assumes "validatePhaseSlotSaturation this = Inr es"
  shows "all_of ''phase_saturation'' warning es"
proof -
  let ?Q = "all_of ''phase_saturation'' warning"
  have "?Q (fold (saturation c d) ks [])" for c d ks
    by (rule fold_invariant [where Q = ?Q]) (simp_all add: saturation_def Let_def split: option.splits)
  with assms show ?thesis
    by (auto simp: validatePhaseSlotSaturation_def split: sum.splits)
qed

lemma skill_coverage_all_of:
  assumes "validateSkillCoverageMatrix this = Inr es"
  shows "all_of ''skill_coverage'' error es"
proof -
  let ?Q = "all_of ''skill_coverage'' error"
  have inner: "?Q (fold (missing_skill S t) skills es)" if "?Q es" for S t skills es
    by (rule fold_invariant [where Q = ?Q, OF _ that]) (simp add: missing_skill_def)
  from assms obtain S where run: "forEach_ex (missing_skills S) (tasks this) [] = Inr es"
    by (auto simp: validateSkillCoverageMatrix_def split: sum.splits)
  show ?thesis
    by (rule forEach_ex_invariant [where Q = ?Q and s = "[]", OF _ _ run])
       (auto simp: missing_skills_def inner split: option.splits)
qed

lemma max_concurrency_all_of:
  assumes "validateMaxConcurrencyFeasibility this = Inr es"
  shows "all_of ''max_concurrency'' warning es"
  by (rule forEach_ex_invariant [where Q = "all_of ''max_concurrency'' warning" and s = "[]",
        OF _ _ assms [unfolded validateMaxConcurrencyFeasibility_def]])
     (auto simp: infeasible_concurrency_def Let_def split: sum.splits if_splits)

section \<open>The result of validateAll, check by check\<close>

lemma push_all_Inr [simp]: "push_all (Inr xs) (Inr es) = Inr (es @ xs)"
  by (simp add: push_all_def)

lemma push_all_Inl [simp]: "push_all c (Inl e) = Inl e"
  by (simp add: push_all_def)

lemma push_all_Inl_Inr [simp]: "push_all (Inl e) (Inr es) = Inl e"
  by (simp add: push_all_def)

lemma validateAll_Inr_iff:
  "fst (validateAll JSON_parses random this k) = Inr errs \<longleftrightarrow>
     (\<exists>u ov p s m.
        validateUnknownReferences this = Inr u \<and> validateOverloadedWorkers this = Inr ov \<and>
        validatePhaseSlotSaturation this = Inr p \<and> validateSkillCoverageMatrix this = Inr s \<and>
        validateMaxConcurrencyFeasibility this = Inr m \<and>
        errs = fst (validateMissingRequiredColumns random this k) @ validateDuplicateIDs this
               @ validateMalformedLists this @ validateOutOfRangeValues this
               @ validateBrokenJSON JSON_parses this @ u @ ov @ p @ s @ m)"
proof -
  obtain u where u: "validateUnknownReferences this = u" by simp
  obtain ov where ov: "validateOverloadedWorkers this = ov" by simp
  obtain p where p: "validatePhaseSlotSaturation this = p" by simp
  obtain s where s: "validateSkillCoverageMatrix this = s" by simp
  obtain m where m: "validateMaxConcurrencyFeasibility this = m" by simp
  show ?thesis
    unfolding validateAll_def Let_def u ov p s m validateCircularCoRunGroups_def
      validateConflictingRules_def
    by (cases u; cases ov; cases p; cases s; cases m) auto
qed

lemma filter_type_all_of:
  assumes "all_of t s es"
  shows "filter (\<lambda>d. type d = t') es = (if t = t' then es else [])"
  using assms by (induction es) (auto simp: all_of_def)

lemma validateAll_by_type:
  assumes "fst (validateAll JSON_parses random this k) = Inr errs"
  shows "filter (\<lambda>d. type d = ''duplicate_id'') errs = validateDuplicateIDs this"
    and "filter (\<lambda>d. type d = ''out_of_range'') errs = validateOutOfRangeValues this"
    and "Inr (filter (\<lambda>d. type d = ''unknown_reference'') errs) = validateUnknownReferences this"
    and "Inr (filter (\<lambda>d. type d = ''phase_saturation'') errs) = validatePhaseSlotSaturation this"
    and "Inr (filter (\<lambda>d. type d = ''max_concurrency'') errs) = validateMaxConcurrencyFeasibility this"
    and "filter (\<lambda>d. type d = ''missing_required_field'') errs
           = fst (validateMissingRequiredColumns random this k)"
proof -
  from assms obtain u ov p s m where
    parts: "validateUnknownReferences this = Inr u" "validateOverloadedWorkers this = Inr ov"
      "validatePhaseSlotSaturation this = Inr p" "validateSkillCoverageMatrix this = Inr s"
      "validateMaxConcurrencyFeasibility this = Inr m"
    and errs: "errs = fst (validateMissingRequiredColumns random this k) @ validateDuplicateIDs this
               @ validateMalformedLists this @ validateOutOfRangeValues this
               @ validateBrokenJSON JSON_parses this @ u @ ov @ p @ s @ m"
    unfolding validateAll_Inr_iff by blast
  note sel = filter_type_all_of [OF missing_all_of [of random this k]]
    filter_type_all_of [OF duplicate_all_of [of this]]
    filter_type_all_of [OF malformed_all_of [of this]]
    filter_type_all_of [OF out_of_range_all_of [of this]]
    filter_type_all_of [OF broken_json_all_of [of JSON_parses this]]
    filter_type_all_of [OF unknown_reference_all_of [OF parts(1)]]
    filter_type_all_of [OF overloaded_all_of [OF parts(2)]]
    filter_type_all_of [OF saturation_all_of [OF parts(3)]]
    filter_type_all_of [OF skill_coverage_all_of [OF parts(4)]]
    filter_type_all_of [OF max_concurrency_all_of [OF parts(5)]]
  show "filter (\<lambda>d. type d = ''duplicate_id'') errs = validateDuplicateIDs this"
    unfolding errs filter_append sel by simp
  show "filter (\<lambda>d. type d = ''out_of_range'') errs = validateOutOfRangeValues this"
    unfolding errs filter_append sel by simp
  show "Inr (filter (\<lambda>d. type d = ''unknown_reference'') errs) = validateUnknownReferences this"
    unfolding errs filter_append sel parts by simp
  show "Inr (filter (\<lambda>d. type d = ''phase_saturation'') errs) = validatePhaseSlotSaturation this"
    unfolding errs filter_append sel parts by simp
  show "Inr (filter (\<lambda>d. type d = ''max_concurrency'') errs) = validateMaxConcurrencyFeasibility this"
    unfolding errs filter_append sel parts by simp
  show "filter (\<lambda>d. type d = ''missing_required_field'') errs
           = fst (validateMissingRequiredColumns random this k)"
    unfolding errs filter_append sel by simp
qed

section \<open>Two runs of the engine\<close>

lemma validateAll_engine: "fst (snd (validateAll JSON_parses random this k)) = this"
  by (simp add: validateAll_def Let_def)

lemma fold_related:
  assumes "\<And>x s s'. R s s' \<Longrightarrow> R (f x s) (f' x s')" and "R s s'"
  shows "R (fold f xs s) (fold f' xs s')"
  using assms(2) by (induction xs arbitrary: s s') (simp_all add: assms(1))

lemma missing_without_random_id:
  "map without_random_id (fst (validateMissingRequiredColumns random this k))
     = map without_random_id (fst (validateMissingRequiredColumns random' this k'))"
proof -
  let ?R = "\<lambda>(s :: ValidationError list \<times> nat) (s' :: ValidationError list \<times> nat).
              map without_random_id (fst s) = map without_random_id (fst s')"
  have c: "?R (fold (missing_client random) (clients this) ([], k))
              (fold (missing_client random') (clients this) ([], k'))"
    by (rule fold_related [where R = ?R])
       (simp_all add: missing_client_def Let_def without_random_id_def)
  have w: "?R (fold (missing_worker random) (workers this) (fold (missing_client random) (clients this) ([], k)))
              (fold (missing_worker random') (workers this) (fold (missing_client random') (clients this) ([], k')))"
    by (rule fold_related [where R = ?R, OF _ c])
       (simp add: missing_worker_def Let_def without_random_id_def)
  have "?R (fold (missing_task random) (tasks this)
             (fold (missing_worker random) (workers this) (fold (missing_client random) (clients this) ([], k))))
           (fold (missing_task random') (tasks this)
             (fold (missing_worker random') (workers this) (fold (missing_client random') (clients this) ([], k'))))"
    by (rule fold_related [where R = ?R, OF _ w])
       (simp add: missing_task_def Let_def without_random_id_def)
  then show ?thesis by (simp add: validateMissingRequiredColumns_def)
qed

lemma fold_unchanged:
  assumes "\<And>x. x \<in> set xs \<Longrightarrow> f x s = s"
  shows "fold f xs s = s"
  using assms by (induction xs) simp_all

lemma missing_none:
  assumes "names_present this"
  shows "validateMissingRequiredColumns random this k = ([], k)"
proof -
  from assms have c: "fold (missing_client random) (clients this) ([], k) = ([], k)"
    by (intro fold_unchanged) (simp add: names_present_def list_all_iff missing_client_def)
  from assms have w: "fold (missing_worker random) (workers this) ([], k) = ([], k)"
    by (intro fold_unchanged) (simp add: names_present_def list_all_iff missing_worker_def)
  from assms have t: "fold (missing_task random) (tasks this) ([], k) = ([], k)"
    by (intro fold_unchanged) (simp add: names_present_def list_all_iff missing_task_def)
  show ?thesis by (simp add: validateMissingRequiredColumns_def c w t)
qed

lemma exception_unique: "(e :: exception) = e'"
  by (cases e; cases e') simp

lemma validateAll_outcomes_agree:
  "outcome_without_random_ids (fst (validateAll JSON_parses random this k))
     = outcome_without_random_ids (fst (validateAll JSON_parses random' this k'))"
proof (cases "fst (validateAll JSON_parses random this k)")
  case (Inl e)
  have "\<exists>e'. fst (validateAll JSON_parses random' this k') = Inl e'"
  proof (cases "fst (validateAll JSON_parses random' this k')")
    case (Inr errs')
    then have "\<exists>errs. fst (validateAll JSON_parses random this k) = Inr errs"
      unfolding validateAll_Inr_iff by blast
    with Inl show ?thesis by simp
  qed simp
  with Inl show ?thesis
    by (auto simp: outcome_without_random_ids_def exception_unique)
next
  case (Inr errs)
  then obtain rest where
    errs: "errs = fst (validateMissingRequiredColumns random this k) @ rest"
    and other: "fst (validateAll JSON_parses random' this k')
                  = Inr (fst (validateMissingRequiredColumns random' this k') @ rest)"
    unfolding validateAll_Inr_iff by blast
  show ?thesis
    unfolding Inr other errs outcome_without_random_ids_def
    by (simp add: missing_without_random_id [of random this k random' k'])
qed

section \<open>When the checks return\<close>

lemma forEach_ex_returns:
  assumes "\<And>x s. x \<in> set xs \<Longrightarrow> \<exists>s'. f x s = Inr s'"
  shows "\<exists>s'. forEach_ex f xs s = Inr s'"
  using assms
proof (induction xs arbitrary: s)
  case Nil
  show ?case by simp
next
  case (Cons x xs)
  from Cons.prems [of x s] obtain s1 where "f x s = Inr s1" by auto
  moreover from Cons.IH [of s1] Cons.prems obtain s' where "forEach_ex f xs s1 = Inr s'"
    by auto
  ultimately show ?case by simp
qed


lemma every_ex_returns:
  assumes "\<And>x. x \<in> set xs \<Longrightarrow> p x = Inr (P x)"
  shows "every_ex p xs = Inr (list_all P xs)"
  using assms by (induction xs) simp_all

lemma filter_ex_returns:
  assumes "\<And>x. x \<in> set xs \<Longrightarrow> p x = Inr (P x)"
  shows "filter_ex p xs = Inr (filter P xs)"
  using assms by (induction xs) simp_all

lemma unknown_references_returns:
  assumes "arrays_present this"
  shows "\<exists>es. validateUnknownReferences this = Inr es"
  unfolding validateUnknownReferences_def Let_def
  using assms
  by (intro forEach_ex_returns) (auto simp: arrays_present_def list_all_iff unknown_refs_def)

lemma overloaded_returns:
  assumes "arrays_present this"
  shows "\<exists>es. validateOverloadedWorkers this = Inr es"
  unfolding validateOverloadedWorkers_def
  using assms
  by (intro forEach_ex_returns) (auto simp: arrays_present_def list_all_iff overloaded_worker_def)

lemma saturation_returns:
  assumes "arrays_present this"
  shows "\<exists>es. validatePhaseSlotSaturation this = Inr es"
proof -
  from assms have "\<exists>c. forEach_ex add_capacity (workers this) [] = Inr c"
    by (intro forEach_ex_returns) (auto simp: arrays_present_def list_all_iff add_capacity_def)
  moreover from assms have "\<exists>d. forEach_ex add_demand (tasks this) [] = Inr d"
    by (intro forEach_ex_returns) (auto simp: arrays_present_def list_all_iff add_demand_def)
  ultimately show ?thesis
    by (auto simp: validatePhaseSlotSaturation_def)
qed

lemma skill_coverage_returns:
  assumes "arrays_present this"
  shows "\<exists>es. validateSkillCoverageMatrix this = Inr es"
proof -
  from assms have "\<exists>S. forEach_ex add_skills (workers this) {} = Inr S"
    by (intro forEach_ex_returns) (auto simp: arrays_present_def list_all_iff add_skills_def)
  then obtain S where S: "forEach_ex add_skills (workers this) {} = Inr S" ..
  from assms have "\<exists>es. forEach_ex (missing_skills S) (tasks this) [] = Inr es"
    by (intro forEach_ex_returns) (auto simp: arrays_present_def list_all_iff missing_skills_def)
  with S show ?thesis
    by (auto simp: validateSkillCoverageMatrix_def)
qed

lemma has_all_skills_returns:
  assumes "RequiredSkills task = Some required" and "Skills worker = Some skills"
  shows "has_all_skills task worker = Inr (list_all (\<lambda>skill. skill \<in> set skills) required)"
  unfolding has_all_skills_def using assms
  by (simp add: every_ex_returns [where P = "\<lambda>skill. skill \<in> set skills"])

lemma qualified_workers_returns:
  assumes "RequiredSkills task = Some required" and "list_all (\<lambda>worker. Skills worker \<noteq> None) ws"
  shows "filter_ex (has_all_skills task) ws
           = Inr (filter (\<lambda>worker. list_all (\<lambda>skill. skill \<in> set (elements (Skills worker))) required) ws)"
proof (rule filter_ex_returns)
  fix worker assume "worker \<in> set ws"
  with assms(2) obtain skills where "Skills worker = Some skills"
    by (auto simp: list_all_iff)
  with has_all_skills_returns [OF assms(1) this]
  show "has_all_skills task worker
          = Inr (list_all (\<lambda>skill. skill \<in> set (elements (Skills worker))) required)"
    by (simp add: elements_def)
qed

lemma max_concurrency_returns:
  assumes "arrays_present this"
  shows "\<exists>es. validateMaxConcurrencyFeasibility this = Inr es"
  unfolding validateMaxConcurrencyFeasibility_def
proof (rule forEach_ex_returns)
  fix task es assume "task \<in> set (tasks this)"
  with assms obtain required where r: "RequiredSkills task = Some required"
    by (auto simp: arrays_present_def list_all_iff)
  from assms have "list_all (\<lambda>worker. Skills worker \<noteq> None) (workers this)"
    by (auto simp: arrays_present_def list_all_iff)
  from qualified_workers_returns [OF r this]
  show "\<exists>s'. infeasible_concurrency (workers this) task es = Inr s'"
    by (simp add: infeasible_concurrency_def Let_def)
qed

section \<open>Repeated identifiers\<close>

lemma repeat_positions_bound: "i \<in> set (repeat_positions ids) \<Longrightarrow> i < length ids"
  by (simp add: repeat_positions_def)

lemma repeat_positions_snoc:
  "repeat_positions (ids @ [y])
     = repeat_positions ids @ (if y \<in> set ids then [length ids] else [])"
proof -
  have "filter (\<lambda>i. (ids @ [y]) ! i \<in> set (take i (ids @ [y]))) [0..<length ids]
          = filter (\<lambda>i. ids ! i \<in> set (take i ids)) [0..<length ids]"
    by (rule filter_cong) (simp_all add: nth_append)
  then show ?thesis
    by (simp add: repeat_positions_def)
qed

lemma repeat_positions_count:
  "length (filter (\<lambda>i. ids ! i = x) (repeat_positions ids)) = count_list ids x - 1"
proof (induction ids rule: rev_induct)
  case Nil
  show ?case by (simp add: repeat_positions_def)
next
  case (snoc y ids)
  have old: "filter (\<lambda>i. (ids @ [y]) ! i = x) (repeat_positions ids)
               = filter (\<lambda>i. ids ! i = x) (repeat_positions ids)"
    by (rule filter_cong) (auto simp: nth_append dest: repeat_positions_bound)
  have seen: "x \<in> set ids \<longleftrightarrow> 0 < count_list ids x"
    using count_list_0_iff [of ids x] by auto
  show ?case
    unfolding repeat_positions_snoc filter_append old length_append snoc.IH
    using seen by auto
qed

lemma fold_flag_repeats:
  assumes "\<And>r s. f r s = (insert (key r) (fst s), if key r \<in> fst s then snd s @ [mk r] else snd s)"
  shows "fold f rs ({}, es)
           = (set (map key rs), es @ map (\<lambda>i. mk (rs ! i)) (repeat_positions (map key rs)))"
proof (induction rs rule: rev_induct)
  case Nil
  show ?case by (simp add: repeat_positions_def)
next
  case (snoc r rs)
  have old: "map (\<lambda>i. mk ((rs @ [r]) ! i)) (repeat_positions (map key rs))
               = map (\<lambda>i. mk (rs ! i)) (repeat_positions (map key rs))"
    by (rule map_cong) (auto simp: nth_append dest: repeat_positions_bound)
  have step: "f r (S, xs) = (insert (key r) S, if key r \<in> S then xs @ [mk r] else xs)" for S xs
    by (simp add: assms)
  have "fold f (rs @ [r]) ({}, es) = f r (fold f rs ({}, es))"
    by simp
  also have "\<dots> = f r (set (map key rs), es @ map (\<lambda>i. mk (rs ! i)) (repeat_positions (map key rs)))"
    by (simp only: snoc.IH)
  also have "\<dots> = (set (map key (rs @ [r])),
       es @ map (\<lambda>i. mk ((rs @ [r]) ! i)) (repeat_positions (map key (rs @ [r]))))"
    unfolding step by (simp add: repeat_positions_snoc old)
  finally show ?case .
qed

lemma validateDuplicateIDs_positions:
  "validateDuplicateIDs this =
     map (\<lambda>i. \<lparr>id_field = ''duplicate-client-'' @ tmpl (ClientID (clients this ! i)),
                type = ''duplicate_id'', entity = ''clients'',
                entityId = ClientID (clients this ! i), field = ''ClientID'',
                message = ''Duplicate ClientID: '' @ tmpl (ClientID (clients this ! i)),
                severity = error\<rparr>)
       (repeat_positions (map ClientID (clients this)))
     @ map (\<lambda>i. \<lparr>id_field = ''duplicate-worker-'' @ tmpl (WorkerID (workers this ! i)),
                type = ''duplicate_id'', entity = ''workers'',
                entityId = WorkerID (workers this ! i), field = ''WorkerID'',
                message = ''Duplicate WorkerID: '' @ tmpl (WorkerID (workers this ! i)),
                severity = error\<rparr>)
       (repeat_positions (map WorkerID (workers this)))
     @ map (\<lambda>i. \<lparr>id_field = ''duplicate-task-'' @ tmpl (TaskID (tasks this ! i)),
                type = ''duplicate_id'', entity = ''tasks'',
                entityId = TaskID (tasks this ! i), field = ''TaskID'',
                message = ''Duplicate TaskID: '' @ tmpl (TaskID (tasks this ! i)),
                severity = error\<rparr>)
       (repeat_positions (map TaskID (tasks this)))"
  unfolding validateDuplicateIDs_def Let_def
  by (simp add: fold_flag_repeats [where f = duplicate_client and key = ClientID, OF duplicate_client_def]
                fold_flag_repeats [where f = duplicate_worker and key = WorkerID, OF duplicate_worker_def]
                fold_flag_repeats [where f = duplicate_task and key = TaskID, OF duplicate_task_def])

lemma fold_flag_repeats_count:
  assumes "\<And>r s. f r s = (insert (key r) (fst s), if key r \<in> fst s then snd s @ [mk r] else snd s)"
    and "\<And>r. P (mk r) \<longleftrightarrow> key r = x"
  shows "length (filter P (snd (fold f rs ({}, es))))
           = length (filter P es) + (count_list (map key rs) x - 1)"
proof -
  have "filter (P \<circ> (\<lambda>i. mk (rs ! i))) (repeat_positions (map key rs))
          = filter (\<lambda>i. map key rs ! i = x) (repeat_positions (map key rs))"
    by (rule filter_cong) (auto simp: assms(2) dest: repeat_positions_bound)
  then show ?thesis
    by (simp add: fold_flag_repeats [of f key mk, OF assms(1)] filter_map repeat_positions_count)
qed

lemma fold_flag_repeats_other:
  assumes "\<And>r s. f r s = (insert (key r) (fst s), if key r \<in> fst s then snd s @ [mk r] else snd s)"
    and "\<And>r. \<not> P (mk r)"
  shows "filter P (snd (fold f rs ({}, es))) = filter P es"
  by (simp add: fold_flag_repeats [of f key mk, OF assms(1)] filter_map o_def assms(2))

lemma validateDuplicateIDs_count:
  "length (filter (\<lambda>d. entity d = ''clients'' \<and> entityId d = x) (validateDuplicateIDs this))
      = count_list (map ClientID (clients this)) x - 1"
  "length (filter (\<lambda>d. entity d = ''workers'' \<and> entityId d = x) (validateDuplicateIDs this))
      = count_list (map WorkerID (workers this)) x - 1"
  "length (filter (\<lambda>d. entity d = ''tasks'' \<and> entityId d = x) (validateDuplicateIDs this))
      = count_list (map TaskID (tasks this)) x - 1"
proof -
  note c = fold_flag_repeats_count [where f = duplicate_client and key = ClientID, OF duplicate_client_def]
    and w = fold_flag_repeats_count [where f = duplicate_worker and key = WorkerID, OF duplicate_worker_def]
    and t = fold_flag_repeats_count [where f = duplicate_task and key = TaskID, OF duplicate_task_def]
    and c' = fold_flag_repeats_other [where f = duplicate_client and key = ClientID, OF duplicate_client_def]
    and w' = fold_flag_repeats_other [where f = duplicate_worker and key = WorkerID, OF duplicate_worker_def]
    and t' = fold_flag_repeats_other [where f = duplicate_task and key = TaskID, OF duplicate_task_def]
  show "length (filter (\<lambda>d. entity d = ''clients'' \<and> entityId d = x) (validateDuplicateIDs this))
      = count_list (map ClientID (clients this)) x - 1"
    unfolding validateDuplicateIDs_def Let_def
    by (subst t', simp, subst w', simp, subst c [where x = x], simp, simp)
  show "length (filter (\<lambda>d. entity d = ''workers'' \<and> entityId d = x) (validateDuplicateIDs this))
      = count_list (map WorkerID (workers this)) x - 1"
    unfolding validateDuplicateIDs_def Let_def
    by (subst t', simp, subst w [where x = x], simp, subst c', simp, simp)
  show "length (filter (\<lambda>d. entity d = ''tasks'' \<and> entityId d = x) (validateDuplicateIDs this))
      = count_list (map TaskID (tasks this)) x - 1"
    unfolding validateDuplicateIDs_def Let_def
    by (subst t [where x = x], simp, subst w', simp, subst c', simp, simp)
qed

section \<open>The Defects of the required-field check, counted\<close>

lemma fold_measure:
  fixes m :: "'s \<Rightarrow> nat"
  assumes "\<And>x s. m (f x s) = m s + (if P x then 1 else 0)"
  shows "m (fold f xs s) = m s + length (filter P xs)"
  by (induction xs arbitrary: s) (simp_all add: assms)

lemma missing_count:
  "length (filter (\<lambda>d. field d = ''ClientID'') (fst (validateMissingRequiredColumns random this k)))
     = length (filter (\<lambda>client. falsy (ClientID client)) (clients this))"
  "length (filter (\<lambda>d. field d = ''WorkerID'') (fst (validateMissingRequiredColumns random this k)))
     = length (filter (\<lambda>worker. falsy (WorkerID worker)) (workers this))"
  "length (filter (\<lambda>d. field d = ''TaskID'') (fst (validateMissingRequiredColumns random this k)))
     = length (filter (\<lambda>task. falsy (TaskID task)) (tasks this))"
proof -
  let ?m = "\<lambda>name (s :: ValidationError list \<times> nat). length (filter (\<lambda>d. field d = name) (fst s))"
  have c: "?m name (missing_client random c s)
             = ?m name s + (if name = ''ClientID'' \<and> falsy (ClientID c) then 1 else 0)"
    if "name \<in> {''ClientID'', ''WorkerID'', ''TaskID''}" for name c s
    using that by (auto simp: missing_client_def Let_def)
  have w: "?m name (missing_worker random w s)
             = ?m name s + (if name = ''WorkerID'' \<and> falsy (WorkerID w) then 1 else 0)"
    if "name \<in> {''ClientID'', ''WorkerID'', ''TaskID''}" for name w s
    using that by (auto simp: missing_worker_def Let_def)
  have t: "?m name (missing_task random t s)
             = ?m name s + (if name = ''TaskID'' \<and> falsy (TaskID t) then 1 else 0)"
    if "name \<in> {''ClientID'', ''WorkerID'', ''TaskID''}" for name t s
    using that by (auto simp: missing_task_def Let_def)
  have all: "?m name (fst (validateMissingRequiredColumns random this k), n)
      = length (filter (\<lambda>c. name = ''ClientID'' \<and> falsy (ClientID c)) (clients this))
        + length (filter (\<lambda>w. name = ''WorkerID'' \<and> falsy (WorkerID w)) (workers this))
        + length (filter (\<lambda>t. name = ''TaskID'' \<and> falsy (TaskID t)) (tasks this))"
    if "name \<in> {''ClientID'', ''WorkerID'', ''TaskID''}" for name n
    unfolding validateMissingRequiredColumns_def fst_conv
    by (simp add: fold_measure [where m = "?m name", OF c [OF that]]
          fold_measure [where m = "?m name", OF w [OF that]]
          fold_measure [where m = "?m name", OF t [OF that]])
  show "length (filter (\<lambda>d. field d = ''ClientID'') (fst (validateMissingRequiredColumns random this k)))
     = length (filter (\<lambda>client. falsy (ClientID client)) (clients this))"
    using all [of "''ClientID''" 0] by simp
  show "length (filter (\<lambda>d. field d = ''WorkerID'') (fst (validateMissingRequiredColumns random this k)))
     = length (filter (\<lambda>worker. falsy (WorkerID worker)) (workers this))"
    using all [of "''WorkerID''" 0] by simp
  show "length (filter (\<lambda>d. field d = ''TaskID'') (fst (validateMissingRequiredColumns random this k)))
     = length (filter (\<lambda>task. falsy (TaskID task)) (tasks this))"
    using all [of "''TaskID''" 0] by simp
qed

lemma filter_conj: "filter (\<lambda>d. P d \<and> Q d) xs = filter Q (filter P xs)"
  by (induction xs) auto

lemma count_list_map: "count_list (map f xs) x = length (filter (\<lambda>r. f r = x) xs)"
  by (induction xs) simp_all

lemma length_filter_mono:
  assumes "\<And>x. P x \<Longrightarrow> Q x"
  shows "length (filter P xs) \<le> length (filter Q xs)"
  by (induction xs) (auto simp: assms)

section \<open>References and qualified workers\<close>



lemma infeasible_concurrency_returns:
  assumes "RequiredSkills task \<noteq> None" and "list_all (\<lambda>worker. Skills worker \<noteq> None) (workers this)"
  shows "infeasible_concurrency (workers this) task es =
           Inr (es @ (if MaxConcurrent task > int (length (qualified_workers this task))
                      then [\<lparr>id_field = ''infeasible-concurrency-'' @ tmpl (TaskID task),
                              type = ''max_concurrency'', entity = ''tasks'',
                              entityId = TaskID task, field = ''MaxConcurrent'',
                              message = ''MaxConcurrent ('' @ show_int (MaxConcurrent task)
                                          @ '') exceeds qualified workers (''
                                          @ show_int (int (length (qualified_workers this task))) @ '')'',
                              severity = warning\<rparr>]
                      else []))"
proof -
  from assms(1) obtain required where r: "RequiredSkills task = Some required"
    by auto
  have e: "elements (RequiredSkills task) = required"
    by (simp add: r elements_def)
  have "filter_ex (has_all_skills task) (workers this) = Inr (qualified_workers this task)"
    unfolding qualified_workers_returns [OF r assms(2)] qualified_workers_def e
    by (simp add: list_all_iff subset_eq)
  then show ?thesis
    by (simp add: infeasible_concurrency_def Let_def)
qed

section \<open>Capacity and demand records\<close>

lemma or_zero_simps [simp]: "or_zero None = 0" "or_zero (Some v) = v"
  by (simp_all add: or_zero_def)

lemma set_first_occurrences [simp]: "set (first_occurrences xs) = set xs"
  by (induction xs) auto

lemma distinct_first_occurrences [simp]: "distinct (first_occurrences xs)"
  by (induction xs) auto

lemma set_key_order [simp]: "set (key_order ks) = set ks"
  by (auto simp: key_order_def)


















lemma validateAll_returns:
  assumes "arrays_present this"
  shows "\<exists>errs. fst (validateAll JSON_parses random this k) = Inr errs"
  using unknown_references_returns [OF assms] overloaded_returns [OF assms] saturation_returns [OF assms]
    skill_coverage_returns [OF assms] max_concurrency_returns [OF assms]
  unfolding validateAll_Inr_iff by blast

section \<open>Properties of the engine\<close>

text \<open>
  Claim C1, as amended. Two calls of \<^verbatim>\<open>validateAll\<close> in a row on the same engine have the
  same outcome up to the identifiers of the \<open>missing_required_field\<close> Defects: both throw,
  or both return Defect sequences of the same length that agree at every position in every
  field, except that the \<open>id\<close> of a \<open>missing_required_field\<close> Defect, which embeds a draw
  of \<^verbatim>\<open>Math.random()\<close>, may differ. When every record has a non-empty identifier and name,
  the two outcomes are identical.
\<close>

theorem validateAll_twice_agree:
  "outcome_without_random_ids (fst (validateAll_twice JSON_parses random this k))
     = outcome_without_random_ids (snd (validateAll_twice JSON_parses random this k))
   \<and> (names_present this \<longrightarrow>
        fst (validateAll_twice JSON_parses random this k)
          = snd (validateAll_twice JSON_parses random this k))"
proof -
  have same: "fst (validateAll JSON_parses random this k) = fst (validateAll JSON_parses random this k')"
    if "names_present this" for k'
    by (simp add: validateAll_def Let_def missing_none [OF that])
  show ?thesis
    unfolding validateAll_twice_def Let_def fst_conv snd_conv validateAll_engine
    using validateAll_outcomes_agree same by blast
qed

theorem validateAll_twice_agree_witness:
  "names_present example_engine
   \<and> fst (validateAll_twice (\<lambda>s. True) two_draws example_engine 0)
       = snd (validateAll_twice (\<lambda>s. True) two_draws example_engine 0)
   \<and> outcome_without_random_ids (fst (validateAll_twice (\<lambda>s. True) two_draws nameless_engine 0))
       = outcome_without_random_ids (snd (validateAll_twice (\<lambda>s. True) two_draws nameless_engine 0))"
proof -
  have names: "names_present example_engine"
    by code_simp
  from validateAll_twice_agree [of "\<lambda>s. True" two_draws example_engine 0] names
    validateAll_twice_agree [of "\<lambda>s. True" two_draws nameless_engine 0]
  show ?thesis by blast
qed

text \<open>
  The claim as stated fails: for one client with an empty name, and a generator whose
  first two draws differ, the two sequences differ in the \<open>id\<close> of their first Defect.
\<close>

theorem validateAll_twice_differ:
  "fst (validateAll_twice (\<lambda>s. True) two_draws nameless_engine 0)
     \<noteq> snd (validateAll_twice (\<lambda>s. True) two_draws nameless_engine 0)"
  by code_simp




text \<open>
  A worker whose \<^verbatim>\<open>AvailableSlots\<close> is absent is reported by \<^verbatim>\<open>validateMalformedLists\<close>,
  and then \<^verbatim>\<open>validateOverloadedWorkers\<close> reads its \<^verbatim>\<open>length\<close> unguarded: the Defect never
  leaves \<^verbatim>\<open>validateAll\<close>.
\<close>

lemma validateAll_throws_without_slots:
  "validateMalformedLists engine_without_slots =
     [\<lparr>id_field = ''malformed-slots-W1'', type = ''malformed_list'', entity = ''workers'',
       entityId = Some ''W1'', field = ''AvailableSlots'',
       message = ''AvailableSlots must be an array of numbers'', severity = error\<rparr>]
   \<and> validateOverloadedWorkers engine_without_slots = Inl TypeError
   \<and> fst (validateAll (\<lambda>s. True) (\<lambda>n. ''0.5'') engine_without_slots 0) = Inl TypeError"
  by code_simp

text \<open>
  Claim C3. In each of the three collections, on its own, the duplicate check flags with a
  \<open>duplicate_id\<close> Defect of severity \<open>error\<close> exactly the records at the positions whose
  identifier already occurs at an earlier position: a first occurrence is never flagged,
  every later one is. These are all the \<open>duplicate_id\<close> Defects of a result of
  \<^verbatim>\<open>validateAll\<close>, and a collection in which exactly two records carry the identifier \<open>x\<close>
  contributes exactly one for \<open>x\<close>.
\<close>

theorem duplicate_ids_flagged:
  "validateDuplicateIDs this =
     map (\<lambda>i. \<lparr>id_field = ''duplicate-client-'' @ tmpl (ClientID (clients this ! i)),
                type = ''duplicate_id'', entity = ''clients'',
                entityId = ClientID (clients this ! i), field = ''ClientID'',
                message = ''Duplicate ClientID: '' @ tmpl (ClientID (clients this ! i)),
                severity = error\<rparr>)
       (repeat_positions (map ClientID (clients this)))
     @ map (\<lambda>i. \<lparr>id_field = ''duplicate-worker-'' @ tmpl (WorkerID (workers this ! i)),
                type = ''duplicate_id'', entity = ''workers'',
                entityId = WorkerID (workers this ! i), field = ''WorkerID'',
                message = ''Duplicate WorkerID: '' @ tmpl (WorkerID (workers this ! i)),
                severity = error\<rparr>)
       (repeat_positions (map WorkerID (workers this)))
     @ map (\<lambda>i. \<lparr>id_field = ''duplicate-task-'' @ tmpl (TaskID (tasks this ! i)),
                type = ''duplicate_id'', entity = ''tasks'',
                entityId = TaskID (tasks this ! i), field = ''TaskID'',
                message = ''Duplicate TaskID: '' @ tmpl (TaskID (tasks this ! i)),
                severity = error\<rparr>)
       (repeat_positions (map TaskID (tasks this)))
   \<and> (fst (validateAll JSON_parses random this k) = Inr errs \<longrightarrow>
        filter (\<lambda>d. type d = ''duplicate_id'') errs = validateDuplicateIDs this
        \<and> (count_list (map ClientID (clients this)) x = 2 \<longrightarrow>
             length (filter (\<lambda>d. type d = ''duplicate_id'' \<and> entity d = ''clients'' \<and> entityId d = x) errs) = 1)
        \<and> (count_list (map WorkerID (workers this)) x = 2 \<longrightarrow>
             length (filter (\<lambda>d. type d = ''duplicate_id'' \<and> entity d = ''workers'' \<and> entityId d = x) errs) = 1)
        \<and> (count_list (map TaskID (tasks this)) x = 2 \<longrightarrow>
             length (filter (\<lambda>d. type d = ''duplicate_id'' \<and> entity d = ''tasks'' \<and> entityId d = x) errs) = 1))"
proof (intro conjI impI)
  assume run: "fst (validateAll JSON_parses random this k) = Inr errs"
  note sel = validateAll_by_type(1) [OF run]
  show "filter (\<lambda>d. type d = ''duplicate_id'') errs = validateDuplicateIDs this"
    by (rule sel)
  show "length (filter (\<lambda>d. type d = ''duplicate_id'' \<and> entity d = ''clients'' \<and> entityId d = x) errs) = 1"
    if "count_list (map ClientID (clients this)) x = 2"
    unfolding filter_conj [where P = "\<lambda>d. type d = ''duplicate_id''"] sel
    by (simp add: validateDuplicateIDs_count(1) that)
  show "length (filter (\<lambda>d. type d = ''duplicate_id'' \<and> entity d = ''workers'' \<and> entityId d = x) errs) = 1"
    if "count_list (map WorkerID (workers this)) x = 2"
    unfolding filter_conj [where P = "\<lambda>d. type d = ''duplicate_id''"] sel
    by (simp add: validateDuplicateIDs_count(2) that)
  show "length (filter (\<lambda>d. type d = ''duplicate_id'' \<and> entity d = ''tasks'' \<and> entityId d = x) errs) = 1"
    if "count_list (map TaskID (tasks this)) x = 2"
    unfolding filter_conj [where P = "\<lambda>d. type d = ''duplicate_id''"] sel
    by (simp add: validateDuplicateIDs_count(3) that)
qed (rule validateDuplicateIDs_positions)

theorem duplicate_ids_flagged_witness:
  "count_list (map ClientID (clients twin_engine)) (Some ''C1'') = 2
   \<and> validateDuplicateIDs twin_engine =
       [\<lparr>id_field = ''duplicate-client-C1'', type = ''duplicate_id'', entity = ''clients'',
         entityId = Some ''C1'', field = ''ClientID'', message = ''Duplicate ClientID: C1'',
         severity = error\<rparr>]
   \<and> (\<exists>errs. fst (validateAll (\<lambda>s. True) (\<lambda>n. ''0.5'') twin_engine 0) = Inr errs
         \<and> filter (\<lambda>d. type d = ''duplicate_id'') errs = validateDuplicateIDs twin_engine
         \<and> length (filter (\<lambda>d. type d = ''duplicate_id'' \<and> entity d = ''clients''
                               \<and> entityId d = Some ''C1'') errs) = 1)"
proof -
  have two: "count_list (map ClientID (clients twin_engine)) (Some ''C1'') = 2"
    by code_simp
  have dups: "validateDuplicateIDs twin_engine =
       [\<lparr>id_field = ''duplicate-client-C1'', type = ''duplicate_id'', entity = ''clients'',
         entityId = Some ''C1'', field = ''ClientID'', message = ''Duplicate ClientID: C1'',
         severity = error\<rparr>]"
    by code_simp
  have "arrays_present twin_engine"
    by code_simp
  from validateAll_returns [OF this] obtain errs
    where run: "fst (validateAll (\<lambda>s. True) (\<lambda>n. ''0.5'') twin_engine 0) = Inr errs"
    by blast
  from duplicate_ids_flagged [of twin_engine "\<lambda>s. True" "\<lambda>n. ''0.5''" 0 errs "Some ''C1''"] run two dups
  show ?thesis by blast
qed









text \<open>
  Claim C7. When every worker has its skill list and every task its required-skill list,
  the concurrency check emits for each task, in order, one \<open>max_concurrency\<close> Defect of
  severity \<open>warning\<close> if and only if the task's maximum concurrency exceeds the number of
  its qualified workers, and the message cites that number.
\<close>

theorem max_concurrency_exact:
  assumes "list_all (\<lambda>worker. Skills worker \<noteq> None) (workers this)"
    and "list_all (\<lambda>task. RequiredSkills task \<noteq> None) (tasks this)"
  shows "validateMaxConcurrencyFeasibility this =
     Inr (concat (map (\<lambda>task.
        if MaxConcurrent task > int (length (qualified_workers this task))
        then [\<lparr>id_field = ''infeasible-concurrency-'' @ tmpl (TaskID task),
                type = ''max_concurrency'', entity = ''tasks'',
                entityId = TaskID task, field = ''MaxConcurrent'',
                message = ''MaxConcurrent ('' @ show_int (MaxConcurrent task)
                            @ '') exceeds qualified workers (''
                            @ show_int (int (length (qualified_workers this task))) @ '')'',
                severity = warning\<rparr>]
        else []) (tasks this)))
   \<and> (fst (validateAll JSON_parses random this k) = Inr errs \<longrightarrow>
        Inr (filter (\<lambda>d. type d = ''max_concurrency'') errs) = validateMaxConcurrencyFeasibility this)"
proof
  have "forEach_ex (infeasible_concurrency (workers this)) (tasks this) [] =
     Inr ([] @ concat (map (\<lambda>task.
        if MaxConcurrent task > int (length (qualified_workers this task))
        then [\<lparr>id_field = ''infeasible-concurrency-'' @ tmpl (TaskID task),
                type = ''max_concurrency'', entity = ''tasks'',
                entityId = TaskID task, field = ''MaxConcurrent'',
                message = ''MaxConcurrent ('' @ show_int (MaxConcurrent task)
                            @ '') exceeds qualified workers (''
                            @ show_int (int (length (qualified_workers this task))) @ '')'',
                severity = warning\<rparr>]
        else []) (tasks this)))"
  proof (rule forEach_ex_push)
    fix task es assume "task \<in> set (tasks this)"
    with assms(2) have "RequiredSkills task \<noteq> None"
      by (simp add: list_all_iff)
    from infeasible_concurrency_returns [OF this assms(1)]
    show "infeasible_concurrency (workers this) task es =
           Inr (es @ (if MaxConcurrent task > int (length (qualified_workers this task))
                      then [\<lparr>id_field = ''infeasible-concurrency-'' @ tmpl (TaskID task),
                              type = ''max_concurrency'', entity = ''tasks'',
                              entityId = TaskID task, field = ''MaxConcurrent'',
                              message = ''MaxConcurrent ('' @ show_int (MaxConcurrent task)
                                          @ '') exceeds qualified workers (''
                                          @ show_int (int (length (qualified_workers this task))) @ '')'',
                              severity = warning\<rparr>]
                      else []))" .
  qed
  then show "validateMaxConcurrencyFeasibility this =
     Inr (concat (map (\<lambda>task.
        if MaxConcurrent task > int (length (qualified_workers this task))
        then [\<lparr>id_field = ''infeasible-concurrency-'' @ tmpl (TaskID task),
                type = ''max_concurrency'', entity = ''tasks'',
                entityId = TaskID task, field = ''MaxConcurrent'',
                message = ''MaxConcurrent ('' @ show_int (MaxConcurrent task)
                            @ '') exceeds qualified workers (''
                            @ show_int (int (length (qualified_workers this task))) @ '')'',
                severity = warning\<rparr>]
        else []) (tasks this)))"
    by (simp add: validateMaxConcurrencyFeasibility_def)
next
  show "fst (validateAll JSON_parses random this k) = Inr errs \<longrightarrow>
        Inr (filter (\<lambda>d. type d = ''max_concurrency'') errs) = validateMaxConcurrencyFeasibility this"
    using validateAll_by_type(5) [of JSON_parses random this k errs] by blast
qed

theorem max_concurrency_exact_witness:
  "list_all (\<lambda>worker. Skills worker \<noteq> None) (workers concurrent_engine)
   \<and> list_all (\<lambda>task. RequiredSkills task \<noteq> None) (tasks concurrent_engine)
   \<and> MaxConcurrent concurrent_task = 3
   \<and> int (length (qualified_workers concurrent_engine concurrent_task)) = 1
   \<and> validateMaxConcurrencyFeasibility concurrent_engine =
       Inr [\<lparr>id_field = ''infeasible-concurrency-T1'', type = ''max_concurrency'', entity = ''tasks'',
              entityId = Some ''T1'', field = ''MaxConcurrent'',
              message = ''MaxConcurrent (3) exceeds qualified workers (1)'', severity = warning\<rparr>]
   \<and> (\<exists>errs. fst (validateAll (\<lambda>s. True) (\<lambda>n. ''0.5'') concurrent_engine 0) = Inr errs
         \<and> Inr (filter (\<lambda>d. type d = ''max_concurrency'') errs)
             = validateMaxConcurrencyFeasibility concurrent_engine)"
proof -
  have w: "list_all (\<lambda>worker. Skills worker \<noteq> None) (workers concurrent_engine)"
    by code_simp
  have t: "list_all (\<lambda>task. RequiredSkills task \<noteq> None) (tasks concurrent_engine)"
    by code_simp
  have m: "MaxConcurrent concurrent_task = 3"
    by code_simp
  have q: "int (length (qualified_workers concurrent_engine concurrent_task)) = 1"
    by code_simp
  have result: "validateMaxConcurrencyFeasibility concurrent_engine =
       Inr [\<lparr>id_field = ''infeasible-concurrency-T1'', type = ''max_concurrency'', entity = ''tasks'',
              entityId = Some ''T1'', field = ''MaxConcurrent'',
              message = ''MaxConcurrent (3) exceeds qualified workers (1)'', severity = warning\<rparr>]"
    by code_simp
  have "arrays_present concurrent_engine"
    by code_simp
  from validateAll_returns [OF this] obtain errs
    where run: "fst (validateAll (\<lambda>s. True) (\<lambda>n. ''0.5'') concurrent_engine 0) = Inr errs"
    by blast
  from max_concurrency_exact [OF w t, of "\<lambda>s. True" "\<lambda>n. ''0.5''" 0 errs] run w t m q result
  show ?thesis by blast
qed


text \<open>
  Claim C9. Every Defect in a sequence returned by \<^verbatim>\<open>validateAll\<close> has severity
  \<open>error\<close> or \<open>warning\<close>; the third severity of the type, \<open>info\<close>, is never emitted.
\<close>

theorem validateAll_severity:
  assumes "fst (validateAll JSON_parses random this k) = Inr errs" and "d \<in> set errs"
  shows "(severity d = error \<or> severity d = warning) \<and> severity d \<noteq> info"
proof -
  from assms(1) obtain u ov p s m where
    parts: "validateUnknownReferences this = Inr u" "validateOverloadedWorkers this = Inr ov"
      "validatePhaseSlotSaturation this = Inr p" "validateSkillCoverageMatrix this = Inr s"
      "validateMaxConcurrencyFeasibility this = Inr m"
    and errs: "errs = fst (validateMissingRequiredColumns random this k) @ validateDuplicateIDs this
               @ validateMalformedLists this @ validateOutOfRangeValues this
               @ validateBrokenJSON JSON_parses this @ u @ ov @ p @ s @ m"
    unfolding validateAll_Inr_iff by blast
  note facts = missing_all_of [of random this k] duplicate_all_of [of this] malformed_all_of [of this]
    out_of_range_all_of [of this] broken_json_all_of [of JSON_parses this]
    unknown_reference_all_of [OF parts(1)] overloaded_all_of [OF parts(2)]
    saturation_all_of [OF parts(3)] skill_coverage_all_of [OF parts(4)]
    max_concurrency_all_of [OF parts(5)]
  from assms(2) facts have "severity d = error \<or> severity d = warning"
    unfolding errs all_of_def set_append Un_iff by blast
  then show ?thesis by auto
qed

theorem validateAll_severity_witness:
  "fst (validateAll (\<lambda>s. True) (\<lambda>n. ''0.5'') example_engine 0) = Inr example_defects
   \<and> list_all (\<lambda>d. (severity d = error \<or> severity d = warning) \<and> severity d \<noteq> info)
         example_defects"
proof -
  have run: "fst (validateAll (\<lambda>s. True) (\<lambda>n. ''0.5'') example_engine 0) = Inr example_defects"
    by code_simp
  from validateAll_severity [OF run] run show ?thesis
    unfolding list_all_iff by blast
qed

text \<open>
  Claim C10. A missing or empty identifier is not exempt from the duplicate check: when
  \<open>n\<close> records of a collection carry the same falsy identifier \<open>x\<close>, the result of
  \<^verbatim>\<open>validateAll\<close> holds \<open>n - 1\<close> \<open>duplicate_id\<close> Defects of that collection for \<open>x\<close>, one
  for the second and each later such record, next to the \<open>missing_required_field\<close>
  Defects that the first check emitted for the identifier of each of the \<open>n\<close> records.
\<close>

theorem falsy_ids_flagged:
  assumes "fst (validateAll JSON_parses random this k) = Inr errs" and "falsy x"
  shows "length (filter (\<lambda>d. type d = ''duplicate_id'' \<and> entity d = ''clients'' \<and> entityId d = x) errs)
           = count_list (map ClientID (clients this)) x - 1
       \<and> length (filter (\<lambda>d. type d = ''duplicate_id'' \<and> entity d = ''workers'' \<and> entityId d = x) errs)
           = count_list (map WorkerID (workers this)) x - 1
       \<and> length (filter (\<lambda>d. type d = ''duplicate_id'' \<and> entity d = ''tasks'' \<and> entityId d = x) errs)
           = count_list (map TaskID (tasks this)) x - 1
       \<and> count_list (map ClientID (clients this)) x
           \<le> length (filter (\<lambda>d. type d = ''missing_required_field'' \<and> field d = ''ClientID'') errs)
       \<and> count_list (map WorkerID (workers this)) x
           \<le> length (filter (\<lambda>d. type d = ''missing_required_field'' \<and> field d = ''WorkerID'') errs)
       \<and> count_list (map TaskID (tasks this)) x
           \<le> length (filter (\<lambda>d. type d = ''missing_required_field'' \<and> field d = ''TaskID'') errs)"
proof -
  have c: "length (filter (\<lambda>r. ClientID r = x) (clients this))
             \<le> length (filter (\<lambda>r. falsy (ClientID r)) (clients this))"
    by (rule length_filter_mono) (simp add: assms(2))
  have w: "length (filter (\<lambda>r. WorkerID r = x) (workers this))
             \<le> length (filter (\<lambda>r. falsy (WorkerID r)) (workers this))"
    by (rule length_filter_mono) (simp add: assms(2))
  have t: "length (filter (\<lambda>r. TaskID r = x) (tasks this))
             \<le> length (filter (\<lambda>r. falsy (TaskID r)) (tasks this))"
    by (rule length_filter_mono) (simp add: assms(2))
  show ?thesis
    unfolding filter_conj [where P = "\<lambda>d. type d = ''duplicate_id''"]
      filter_conj [where P = "\<lambda>d. type d = ''missing_required_field''"]
      validateAll_by_type(1) [OF assms(1)] validateAll_by_type(6) [OF assms(1)]
    using c w t by (simp add: validateDuplicateIDs_count missing_count count_list_map)
qed

theorem falsy_ids_flagged_witness:
  "falsy (Some [])
   \<and> count_list (map ClientID (clients anonymous_engine)) (Some []) = 3
   \<and> (\<exists>errs. fst (validateAll (\<lambda>s. True) (\<lambda>n. ''0.5'') anonymous_engine 0) = Inr errs
         \<and> length (filter (\<lambda>d. type d = ''duplicate_id'' \<and> entity d = ''clients''
                               \<and> entityId d = Some []) errs) = 2
         \<and> 3 \<le> length (filter (\<lambda>d. type d = ''missing_required_field'' \<and> field d = ''ClientID'') errs))"
proof -
  have f: "falsy (Some [])"
    by (simp add: falsy_def)
  have three: "count_list (map ClientID (clients anonymous_engine)) (Some []) = 3"
    by code_simp
  have "arrays_present anonymous_engine"
    by code_simp
  from validateAll_returns [OF this] obtain errs
    where run: "fst (validateAll (\<lambda>s. True) (\<lambda>n. ''0.5'') anonymous_engine 0) = Inr errs"
    by blast
  from falsy_ids_flagged [OF run f] three have
    "length (filter (\<lambda>d. type d = ''duplicate_id'' \<and> entity d = ''clients''
                               \<and> entityId d = Some []) errs) = 2"
    "3 \<le> length (filter (\<lambda>d. type d = ''missing_required_field'' \<and> field d = ''ClientID'') errs)"
    by simp_all
  with f three run show ?thesis by blast
qed

end
